theory Spec2Isabelle
  imports Complex_Main "HOL-Library.Log_Nat"
begin

section \<open>Constants of the synchronisation code\<close>

text \<open>
  JavaScript numbers that hold identifiers, counts and timestamps are modelled as
  \<^typ>\<open>int\<close>: the source only adds, subtracts, compares and floors them, which is exact
  for integer values below \<open>2^53\<close> in magnitude. Times are wall-clock milliseconds
  (\<open>Date.now()\<close>) unless a name says seconds.
\<close>

definition REFETCH_COOLDOWN_MS :: int where
  "REFETCH_COOLDOWN_MS = 5000"

definition FETCH_DEBOUNCE_MS :: int where
  "FETCH_DEBOUNCE_MS = 300"

definition MEAL_DURATION_SECONDS :: int where
  "MEAL_DURATION_SECONDS = 6 * 60 * 60"


section \<open>StakingSyncService\<close>

record StakingData =
  stakedMiners :: "int list"
  stakedMinerCount :: int
  pendingRewards :: string
  gemsPerSecond :: string
  lastSyncTimestamp :: int
  userAddress :: string

text \<open>The one mutable field of the service that the synchronisation reads and writes.\<close>

record StakingSyncService =
  svcLastSyncTimestamp :: int

text \<open>
  The data \<open>getStakingData\<close> returns from its \<open>catch\<close> block, and \<open>manualSync\<close> passes
  to the callback from its own.
\<close>

definition fallbackData :: "string \<Rightarrow> int \<Rightarrow> StakingData" where
  "fallbackData walletAddress now =
     \<lparr> stakedMiners = [], stakedMinerCount = 0, pendingRewards = ''0'',
       gemsPerSecond = ''0'', lastSyncTimestamp = now, userAddress = walletAddress \<rparr>"

text \<open>
  \<open>getStakingData\<close>. The three contract reads are awaited in order; each is given as
  \<open>Some\<close> value, or \<open>None\<close> when the call rejects, which sends control to the \<open>catch\<close>
  block. \<open>formatUnits\<close> is the ethers library function (with 18 decimals), a parameter
  here. \<open>now\<close> is what \<open>Date.now()\<close> returns on the path taken.
\<close>

definition getStakingData ::
  "(int \<Rightarrow> string) \<Rightarrow> int list option \<Rightarrow> int option \<Rightarrow> int option \<Rightarrow> string \<Rightarrow> int
     \<Rightarrow> StakingSyncService \<Rightarrow> StakingData \<times> StakingSyncService" where
  "getStakingData formatUnits getStakedMinersR getPendingRewardsR GEMS_PER_SECOND_R
       walletAddress now svc =
     (case getStakedMinersR of
        None \<Rightarrow> (fallbackData walletAddress now, svc)
      | Some miners \<Rightarrow>
          let minerCount = int (length miners) in
          (case getPendingRewardsR of
             None \<Rightarrow> (fallbackData walletAddress now, svc)
           | Some rewards \<Rightarrow>
               let formattedRewards = formatUnits rewards in
               (case GEMS_PER_SECOND_R of
                  None \<Rightarrow> (fallbackData walletAddress now, svc)
                | Some rate \<Rightarrow>
                    let formattedRate = formatUnits rate;
                        svc' = svc\<lparr> svcLastSyncTimestamp := now \<rparr>
                    in (\<lparr> stakedMiners = miners, stakedMinerCount = minerCount,
                           pendingRewards = formattedRewards, gemsPerSecond = formattedRate,
                           lastSyncTimestamp = svcLastSyncTimestamp svc',
                           userAddress = walletAddress \<rparr>, svc'))))"


subsection \<open>JavaScript numbers\<close>

text \<open>
  A value of the ECMAScript Number type, an IEEE 754 double: not-a-number, an infinity
  with its sign (\<open>True\<close> is negative), or a sign and a magnitude. The magnitude is a
  non-negative rational; \<open>Num True 0\<close> is the negative zero.
\<close>

datatype number = NaN | Infinity bool | Num bool rat

definition pow2 :: "int \<Rightarrow> rat" where
  "pow2 e = (if e \<ge> 0 then 2 ^ nat e else 1 / 2 ^ nat (- e))"

text \<open>The binary exponent of a positive rational: the \<open>e\<close> with \<open>2^e \<le> m < 2^(e+1)\<close>.\<close>

definition ilog2 :: "rat \<Rightarrow> int" where
  "ilog2 m = (if m \<ge> 1 then bitlen \<lfloor>m\<rfloor> - 1 else - bitlen (\<lceil>1 / m\<rceil> - 1))"

definition roundHalfEven :: "rat \<Rightarrow> int" where
  "roundHalfEven x =
     (let f = \<lfloor>x\<rfloor>; d = x - of_int f
      in if d < 1 / 2 then f else if d > 1 / 2 then f + 1 else if even f then f else f + 1)"

text \<open>
  Rounding of a positive rational to the doubles, to nearest, ties to even, with the
  exponent range unbounded above: the spacing of the doubles around \<open>m\<close> is
  \<open>2^(e - 52)\<close> for the exponent \<open>e\<close> of \<open>m\<close>, and \<open>2^(-1074)\<close> in the subnormal range.
\<close>

definition nearestDouble :: "rat \<Rightarrow> rat" where
  "nearestDouble m =
     (let e = max (ilog2 m) (- 1022); q = pow2 (e - 52)
      in of_int (roundHalfEven (m / q)) * q)"

text \<open>
  The double for the exact magnitude \<open>m\<close> of a result with the given sign: a zero keeps
  the sign, and a rounded value whose exponent exceeds 1023 overflows to the infinity.
\<close>

definition roundMag :: "bool \<Rightarrow> rat \<Rightarrow> number" where
  "roundMag neg m =
     (if m = 0 then Num neg 0
      else let r = nearestDouble m in if ilog2 r > 1023 then Infinity neg else Num neg r)"

definition signedValue :: "bool \<Rightarrow> rat \<Rightarrow> rat" where
  "signedValue neg m = (if neg then - m else m)"

text \<open>The operators \<open>*\<close>, \<open>/\<close>, \<open>+\<close>, unary and binary \<open>-\<close> on numbers, and \<open>x === 0\<close>.\<close>

fun numMul :: "number \<Rightarrow> number \<Rightarrow> number" where
  "numMul NaN y = NaN"
| "numMul x NaN = NaN"
| "numMul (Infinity s) (Infinity t) = Infinity (s \<noteq> t)"
| "numMul (Infinity s) (Num t b) = (if b = 0 then NaN else Infinity (s \<noteq> t))"
| "numMul (Num s a) (Infinity t) = (if a = 0 then NaN else Infinity (s \<noteq> t))"
| "numMul (Num s a) (Num t b) = roundMag (s \<noteq> t) (a * b)"

fun numDiv :: "number \<Rightarrow> number \<Rightarrow> number" where
  "numDiv NaN y = NaN"
| "numDiv x NaN = NaN"
| "numDiv (Infinity s) (Infinity t) = NaN"
| "numDiv (Infinity s) (Num t b) = Infinity (s \<noteq> t)"
| "numDiv (Num s a) (Infinity t) = Num (s \<noteq> t) 0"
| "numDiv (Num s a) (Num t b) =
     (if b = 0 then (if a = 0 then NaN else Infinity (s \<noteq> t))
      else roundMag (s \<noteq> t) (a / b))"

fun numAdd :: "number \<Rightarrow> number \<Rightarrow> number" where
  "numAdd NaN y = NaN"
| "numAdd x NaN = NaN"
| "numAdd (Infinity s) (Infinity t) = (if s = t then Infinity s else NaN)"
| "numAdd (Infinity s) (Num t b) = Infinity s"
| "numAdd (Num s a) (Infinity t) = Infinity t"
| "numAdd (Num s a) (Num t b) =
     (let z = signedValue s a + signedValue t b
      in if z = 0 then Num (s \<and> t \<and> a = 0) 0 else roundMag (z < 0) \<bar>z\<bar>)"

fun numNeg :: "number \<Rightarrow> number" where
  "numNeg NaN = NaN"
| "numNeg (Infinity s) = Infinity (\<not> s)"
| "numNeg (Num s a) = Num (\<not> s) a"

definition numSub :: "number \<Rightarrow> number \<Rightarrow> number" where
  "numSub x y = numAdd x (numNeg y)"

fun strictEqualsZero :: "number \<Rightarrow> bool" where
  "strictEqualsZero (Num s a) = (a = 0)"
| "strictEqualsZero x = False"

subsection \<open>The estimate\<close>

text \<open>
  \<open>estimateCurrentRewards\<close>. \<open>Number\<close> (applied to a string) and \<open>toString\<close> (of a
  number) are the ECMAScript built-ins, parameters here; \<open>Number\<close> gives \<open>NaN\<close> for a
  string that is no numeric literal. \<open>now\<close> is what \<open>Date.now()\<close> returns; it and
  \<open>lastUpdateTime\<close> are in milliseconds. \<open>updatedRewards\<close> is the number the method
  prints.
\<close>

definition updatedRewards ::
  "(string \<Rightarrow> number) \<Rightarrow> string \<Rightarrow> string \<Rightarrow> number \<Rightarrow> number \<Rightarrow> number \<Rightarrow> number" where
  "updatedRewards Number baseRewards gemsPerSecondS minerCount lastUpdateTime now =
     (let elapsed = numDiv (numSub now lastUpdateTime) (Num False 1000);
          rate = Number gemsPerSecondS;
          additionalRewards = numMul (numMul rate minerCount) elapsed
      in numAdd (Number baseRewards) additionalRewards)"

definition estimateCurrentRewards ::
  "(string \<Rightarrow> number) \<Rightarrow> (number \<Rightarrow> string) \<Rightarrow> string \<Rightarrow> string \<Rightarrow> number \<Rightarrow> number \<Rightarrow> number
     \<Rightarrow> string" where
  "estimateCurrentRewards Number toString baseRewards gemsPerSecondS minerCount lastUpdateTime now =
     (if strictEqualsZero minerCount then baseRewards
      else toString (updatedRewards Number baseRewards gemsPerSecondS minerCount lastUpdateTime
                       now))"

section \<open>useExpeditions\<close>

subsection \<open>Data\<close>

record FedStatus =
  mealId :: int
  timestamp :: int
  isActive :: bool
  expiryTime :: int

record ExpeditionStatus =
  minerId :: int
  onExpedition :: bool
  startTime :: int
  endTime :: int
  completed :: bool
  eligibleForNewExpedition :: bool
  fedStatus :: FedStatus

text \<open>
  The block of \<open>logDebug\<close> lines written when the contract's eligibility check and the
  expiry check used for display disagree: one entry stands for the six consecutive lines,
  and holds the values they print.
\<close>

record MismatchRecord =
  logOpId :: nat
  logMinerId :: int
  contractEligible :: bool
  uiEligible :: bool
  logMealTimestamp :: int
  logExpiryTime :: int
  logCurrentTime :: int

record Wallet =
  connector :: "string option"
  address :: "string option"

text \<open>
  The state one instance of the hook works on: its React state, its refs, the time-outs
  it has scheduled with \<open>setTimeout\<close> (identifier, due time, the \<open>force\<close> argument the
  scheduled closure holds), the module-level \<open>globalOperationCounter\<close>, and the mismatch
  blocks written to the console.
\<close>

record ExpState =
  globalOperationCounter :: nat
  currentOpIdRef :: nat
  loading :: bool
  error :: "string option"
  initialized :: bool
  statuses :: "ExpeditionStatus list"
  lastValidStakedMiners :: "int list"
  lastFetchTimeRef :: int
  fetchInProgressRef :: bool
  cooldownTime :: int
  walletRef :: Wallet
  debouncedFetchRef :: "nat option"
  timeouts :: "(nat \<times> int \<times> bool) list"
  nextTimeoutId :: nat
  console :: "MismatchRecord list"

text \<open>
  What one run of the fetch meets at its awaits. \<open>setupError\<close> is the exception, if any,
  of the set-up statements at the head of the outer \<open>try\<close> (\<open>getProvider\<close>, \<open>getSigner\<close>,
  the address look-ups, the contract objects). A contract read is \<open>None\<close> when the call
  rejects. \<open>otherOpsBeforeLoop\<close> and \<open>otherOpsDuring m\<close> count the increments of
  \<open>globalOperationCounter\<close> made by other code (cycles of other instances of the hook,
  unmount clean-ups) while this run is suspended before the loop and in the iteration of
  miner \<open>m\<close>; the source only ever increments that counter.
\<close>

record FetchEnv =
  setupError :: "string option"
  MEAL_COOLDOWN :: "int option"
  getStakedMiners :: "int list option"
  expeditions :: "int \<Rightarrow> (int \<times> int \<times> bool) option"
  getMinerMealStatus :: "int \<Rightarrow> (int \<times> int) option"
  otherOpsBeforeLoop :: nat
  otherOpsDuring :: "int \<Rightarrow> nat"

subsection \<open>One miner\<close>

text \<open>
  \<open>new Date(ms).toISOString()\<close> throws a \<open>RangeError\<close> when \<open>ms\<close> is outside the range
  of ECMAScript time values.
\<close>

definition toISOStringThrows :: "int \<Rightarrow> bool" where
  "toISOStringThrows ms = (\<bar>ms\<bar> > 8640000000000000)"

text \<open>
  The body of the loop for one miner, after the check of the operation counter: the
  status pushed to \<open>newStatuses\<close> (\<open>None\<close> when the outer \<open>catch\<close> skips the miner) and
  the mismatch blocks logged. The expedition read gives \<open>(startTime, endTime, completed)\<close>,
  the meal read \<open>(mealId, timestamp)\<close>. The two inner \<open>try\<close> blocks keep the initial
  values when their read rejects. Of the log lines, the two built outside the inner
  \<open>try\<close> blocks with \<open>toISOString\<close> can throw, which the outer \<open>catch\<close> turns into
  skipping the miner; the \<open>toISOString\<close> inside the meal \<open>try\<close> comes after every
  assignment of that block, so an exception there changes no value.
\<close>

definition processMiner ::
  "nat \<Rightarrow> int \<Rightarrow> int \<Rightarrow> int \<Rightarrow> (int \<times> int \<times> bool) option \<Rightarrow> (int \<times> int) option
     \<Rightarrow> ExpeditionStatus option \<times> MismatchRecord list" where
  "processMiner opId mealCooldownSecs currentTimestampSeconds minerIdV expeditionData mealInfo =
     (let (startTimeValue, endTimeValue, completedValue, isOnExpedition) =
            (case expeditionData of
               Some (st, en, c) \<Rightarrow> (st, en, c, st > 0 \<and> en > 0 \<and> \<not> c)
             | None \<Rightarrow> (0, 0, False, False));
          (mealIdV, mealTimestamp, fed) =
            (case mealInfo of
               Some (mid, ts) \<Rightarrow> (mid, ts, ts > 0)
             | None \<Rightarrow> (0, 0, False));
          logged =
            (case mealInfo of
               Some (mid, ts) \<Rightarrow>
                 (let mealEverConsumed = ts > 0;
                      mealExpiry = ts + mealCooldownSecs;
                      mealActiveByExpiry = mealExpiry > currentTimestampSeconds
                  in if mealEverConsumed = mealActiveByExpiry then []
                     else [\<lparr> logOpId = opId, logMinerId = minerIdV,
                              contractEligible = mealEverConsumed,
                              uiEligible = mealActiveByExpiry,
                              logMealTimestamp = ts, logExpiryTime = mealExpiry,
                              logCurrentTime = currentTimestampSeconds \<rparr>])
             | None \<Rightarrow> []);
          mealExpiryTime = mealTimestamp + mealCooldownSecs;
          isMealActive = fed;
          eligible = (\<not> isOnExpedition \<and> isMealActive)
      in if toISOStringThrows (mealExpiryTime * 1000) then (None, logged)
         else if \<not> eligible \<and> toISOStringThrows (mealTimestamp + mealCooldownSecs * 1000)
           then (None, logged)
         else
           (Some \<lparr> minerId = minerIdV, onExpedition = isOnExpedition,
                   startTime = startTimeValue, endTime = endTimeValue,
                   completed = completedValue, eligibleForNewExpedition = eligible,
                   fedStatus = \<lparr> mealId = mealIdV, timestamp = mealTimestamp,
                                 isActive = isMealActive, expiryTime = mealExpiryTime \<rparr> \<rparr>,
            logged))"

subsection \<open>One fetch\<close>

text \<open>
  The \<open>for\<close> loop over the staked miners. Each iteration first compares the operation's
  identifier with the counter and leaves the function (\<open>None\<close>) when they differ; then it
  awaits the two reads of the miner, during which other code may increment the counter.
\<close>

fun loopMiners ::
  "FetchEnv \<Rightarrow> nat \<Rightarrow> int \<Rightarrow> int \<Rightarrow> int list \<Rightarrow> ExpState \<Rightarrow> ExpeditionStatus list
     \<Rightarrow> ExpeditionStatus list option \<times> ExpState" where
  "loopMiners env opId cd nowS [] s newStatuses = (Some newStatuses, s)"
| "loopMiners env opId cd nowS (m # ms) s newStatuses =
     (if opId \<noteq> globalOperationCounter s then (None, s)
      else
        let (st, logged) = processMiner opId cd nowS m (expeditions env m) (getMinerMealStatus env m);
            s1 = s\<lparr> console := console s @ logged,
                    globalOperationCounter := globalOperationCounter s + otherOpsDuring env m \<rparr>
        in loopMiners env opId cd nowS ms s1
             (case st of Some x \<Rightarrow> newStatuses @ [x] | None \<Rightarrow> newStatuses))"

text \<open>
  The read of the staked miners with its fall-back. \<open>cachedMiners\<close> is the value of
  \<open>lastValidStakedMiners\<close> that the callback sees: the callback is memoised by
  \<open>useCallback\<close> with an empty dependency list and reads the state variable, not a ref.
\<close>

definition readStakedMiners :: "int list option \<Rightarrow> int list \<Rightarrow> ExpState \<Rightarrow> int list \<times> ExpState" where
  "readStakedMiners stakedMinersResult cachedMiners s =
     (case stakedMinersResult of
        Some miners \<Rightarrow>
          (if length miners > 0 then (miners, s\<lparr> lastValidStakedMiners := miners \<rparr>)
           else (miners, s))
      | None \<Rightarrow> (cachedMiners, s))"

text \<open>The block that completes an operation that ran through the loop.\<close>

definition commitResults :: "nat \<Rightarrow> int \<Rightarrow> int list \<Rightarrow> ExpeditionStatus list \<Rightarrow> ExpState \<Rightarrow> ExpState" where
  "commitResults opId now stakedMinersV newStatuses s =
     (if opId = globalOperationCounter s then
        (let s1 = s\<lparr> initialized := True \<rparr>;
             s2 = (if length stakedMinersV > 0
                   then s1\<lparr> lastValidStakedMiners := stakedMinersV \<rparr> else s1)
         in s2\<lparr> statuses := newStatuses, cooldownTime := now + REFETCH_COOLDOWN_MS \<rparr>)
      else s)"

definition catchBlock :: "nat \<Rightarrow> string \<Rightarrow> ExpState \<Rightarrow> ExpState" where
  "catchBlock opId msg s =
     (if opId = globalOperationCounter s then s\<lparr> error := Some msg \<rparr> else s)"

definition finallyBlock :: "nat \<Rightarrow> ExpState \<Rightarrow> ExpState" where
  "finallyBlock opId s =
     (let s1 = (if opId = globalOperationCounter s then s\<lparr> loading := False \<rparr> else s)
      in s1\<lparr> fetchInProgressRef := False \<rparr>)"

definition otherOps :: "nat \<Rightarrow> ExpState \<Rightarrow> ExpState" where
  "otherOps n s = s\<lparr> globalOperationCounter := globalOperationCounter s + n \<rparr>"

text \<open>
  The asynchronous part of the time-out's callback, from the outer \<open>try\<close> to its end,
  for the operation \<open>opId\<close> started at \<open>now\<close>. The \<open>return\<close> inside the loop runs the
  \<open>finally\<close> block only; the other paths also reach the statement after it, which clears
  \<open>debouncedFetchRef\<close>.
\<close>

definition runFetch :: "FetchEnv \<Rightarrow> int list \<Rightarrow> nat \<Rightarrow> int \<Rightarrow> ExpState \<Rightarrow> ExpState" where
  "runFetch env cachedMiners opId now s =
     (case setupError env of
        Some msg \<Rightarrow>
          (finallyBlock opId (catchBlock opId msg (otherOps (otherOpsBeforeLoop env) s)))
            \<lparr> debouncedFetchRef := None \<rparr>
      | None \<Rightarrow>
          (let currentTimestampSeconds = now div 1000;
               mealCooldownSecs =
                 (case MEAL_COOLDOWN env of Some c \<Rightarrow> c | None \<Rightarrow> MEAL_DURATION_SECONDS);
               (stakedMinersV, s1) = readStakedMiners (getStakedMiners env) cachedMiners s;
               s2 = otherOps (otherOpsBeforeLoop env) s1
           in (case loopMiners env opId mealCooldownSecs currentTimestampSeconds
                       stakedMinersV s2 [] of
                 (None, s3) \<Rightarrow> finallyBlock opId s3
               | (Some newStatuses, s3) \<Rightarrow>
                   (finallyBlock opId (commitResults opId now stakedMinersV newStatuses s3))
                     \<lparr> debouncedFetchRef := None \<rparr>)))"

subsection \<open>Scheduling\<close>

text \<open>\<open>!address\<close> for an optional string: absent or empty.\<close>

definition noAddress :: "string option \<Rightarrow> bool" where
  "noAddress a = (case a of None \<Rightarrow> True | Some x \<Rightarrow> x = [])"

text \<open>
  The synchronous head of the time-out's callback, up to the first await: the identifier
  of the operation it starts (\<open>None\<close> when it returns without fetching) and the state.
\<close>

definition timerCallback :: "bool \<Rightarrow> int \<Rightarrow> ExpState \<Rightarrow> nat option \<times> ExpState" where
  "timerCallback force now s =
     (if connector (walletRef s) = None \<or> noAddress (address (walletRef s)) then
        (None, s\<lparr> error := Some ''Wallet not connected'', initialized := False \<rparr>)
      else if fetchInProgressRef s then (None, s)
      else if \<not> force \<and> now - lastFetchTimeRef s < REFETCH_COOLDOWN_MS then (None, s)
      else
        (let opId = globalOperationCounter s + 1
         in (Some opId,
             s\<lparr> fetchInProgressRef := True, globalOperationCounter := opId,
                currentOpIdRef := opId, lastFetchTimeRef := now,
                loading := True, error := None \<rparr>)))"

definition clearTimeout :: "nat \<Rightarrow> (nat \<times> int \<times> bool) list \<Rightarrow> (nat \<times> int \<times> bool) list" where
  "clearTimeout t ts = filter (\<lambda>e. fst e \<noteq> t) ts"

text \<open>
  \<open>fetchStatuses(force)\<close> called at \<open>now\<close>: it cancels the time-out held in
  \<open>debouncedFetchRef\<close> and schedules a new one, \<open>FETCH_DEBOUNCE_MS\<close> later.
\<close>

definition fetchStatuses :: "bool \<Rightarrow> int \<Rightarrow> ExpState \<Rightarrow> ExpState" where
  "fetchStatuses force now s =
     (let s1 = (case debouncedFetchRef s of
                  Some t \<Rightarrow> s\<lparr> timeouts := clearTimeout t (timeouts s), debouncedFetchRef := None \<rparr>
                | None \<Rightarrow> s);
          t' = nextTimeoutId s1
      in s1\<lparr> timeouts := timeouts s1 @ [(t', now + FETCH_DEBOUNCE_MS, force)],
             debouncedFetchRef := Some t', nextTimeoutId := t' + 1 \<rparr>)"

text \<open>
  The event loop, idle between the events of a run: it runs the callbacks of the
  time-outs that are due, oldest first, each at its due time. A run of a callback is
  recorded as its \<open>force\<close> argument and the operation it started, if any.
\<close>

fun fireDue ::
  "int \<Rightarrow> (nat \<times> int \<times> bool) list \<Rightarrow> ExpState \<Rightarrow> (bool \<times> nat option) list \<times> ExpState" where
  "fireDue now [] s = ([], s)"
| "fireDue now ((t, due, force) # ts) s =
     (if due \<le> now then
        (let (started, s1) = timerCallback force due (s\<lparr> timeouts := clearTimeout t (timeouts s) \<rparr>);
             (runs, s2) = fireDue now ts s1
         in ((force, started) # runs, s2))
      else fireDue now ts s)"

definition advance :: "int \<Rightarrow> ExpState \<Rightarrow> (bool \<times> nat option) list \<times> ExpState" where
  "advance now s = fireDue now (timeouts s) s"

datatype Event = Trigger bool int | Advance int

text \<open>
  A sequence of calls of \<open>fetchStatuses\<close> and of waits, in the order of their times: the
  runs of the debounced callback it causes, and the final state. No fetch in flight
  completes during the sequence.
\<close>

fun exec :: "Event list \<Rightarrow> ExpState \<Rightarrow> (bool \<times> nat option) list \<times> ExpState" where
  "exec [] s = ([], s)"
| "exec (Trigger force now # es) s =
     (let (r1, s1) = advance now s;
          (r2, s2) = exec es (fetchStatuses force now s1)
      in (r1 @ r2, s2))"
| "exec (Advance now # es) s =
     (let (r1, s1) = advance now s;
          (r2, s2) = exec es s1
      in (r1 @ r2, s2))"

text \<open>The runs that started a fetch, that is, went on to read from the chain.\<close>

definition readCycles :: "(bool \<times> nat option) list \<Rightarrow> nat" where
  "readCycles runs = length (filter (\<lambda>r. snd r \<noteq> None) runs)"

text \<open>Consecutive triggers of a burst are less than the debounce delay apart.\<close>

fun withinDebounce :: "(bool \<times> int) list \<Rightarrow> bool" where
  "withinDebounce [] = True"
| "withinDebounce [x] = True"
| "withinDebounce (x # y # xs) =
     (snd x \<le> snd y \<and> snd y - snd x < FETCH_DEBOUNCE_MS \<and> withinDebounce (y # xs))"

definition triggers :: "(bool \<times> int) list \<Rightarrow> Event list" where
  "triggers trs = map (\<lambda>(force, now). Trigger force now) trs"

subsection \<open>Derived state\<close>

definition anyOnExpedition :: "bool \<Rightarrow> ExpeditionStatus list \<Rightarrow> bool" where
  "anyOnExpedition initializedV sts = (initializedV \<and> list_ex onExpedition sts)"

definition readyToComplete :: "int \<Rightarrow> ExpeditionStatus list \<Rightarrow> ExpeditionStatus list" where
  "readyToComplete nowSeconds sts =
     filter (\<lambda>s. onExpedition s \<and> endTime s \<le> nowSeconds \<and> \<not> completed s) sts"

definition eligibleMiners :: "ExpeditionStatus list \<Rightarrow> int list" where
  "eligibleMiners sts = map minerId (filter eligibleForNewExpedition sts)"

definition allMinersEligible :: "ExpeditionStatus list \<Rightarrow> bool" where
  "allMinersEligible sts =
     (if length sts = 0 then False else list_all eligibleForNewExpedition sts)"

definition allMinersFed :: "ExpeditionStatus list \<Rightarrow> bool" where
  "allMinersFed sts =
     (if length sts = 0 then False else list_all (\<lambda>s. isActive (fedStatus s) = True) sts)"

section \<open>useFeedingStatus\<close>

record MinerFeedingStatus =
  fsMinerId :: int
  fsMealId :: int
  fsTimestamp :: int
  fed :: bool

record FeedingStatusResult =
  fsStatuses :: "MinerFeedingStatus list"
  fsAllMinersFed :: bool
  fsLoading :: bool

text \<open>The hook returns the same object whatever its argument and whatever is staked.\<close>

definition useFeedingStatus :: "int \<Rightarrow> FeedingStatusResult" where
  "useFeedingStatus refreshInterval =
     \<lparr> fsStatuses = [], fsAllMinersFed = True, fsLoading = False \<rparr>"

section \<open>useMealStatuses\<close>

record MealHookState =
  msStakedMiners :: "int list"
  msLastValidStakedMiners :: "int list"

text \<open>
  \<open>fetchStakedMiners\<close>: the list it returns and the state of the hook afterwards.
  \<open>stakingAddress\<close> is what \<open>getContractAddress\<close> returned; \<open>minersResult\<close> is the
  contract read, \<open>None\<close> when anything inside the \<open>try\<close> throws.
\<close>

definition fetchStakedMiners ::
  "Wallet \<Rightarrow> string \<Rightarrow> int list option \<Rightarrow> MealHookState \<Rightarrow> int list \<times> MealHookState" where
  "fetchStakedMiners w stakingAddress minersResult s =
     (if connector w = None \<or> noAddress (address w) then (msLastValidStakedMiners s, s)
      else if stakingAddress = [] then (msLastValidStakedMiners s, s)
      else
        (case minersResult of
           Some minerIds \<Rightarrow>
             (if length minerIds > 0 then
                (minerIds, s\<lparr> msStakedMiners := minerIds, msLastValidStakedMiners := minerIds \<rparr>)
              else (msLastValidStakedMiners s, s))
         | None \<Rightarrow> (msLastValidStakedMiners s, s)))"

section \<open>States and environments used in the examples\<close>

text \<open>
  The state of the hook when it mounts, from the initial values of its \<open>useState\<close> and
  \<open>useRef\<close> calls and of the module-level counter.
\<close>

definition mountState :: "Wallet \<Rightarrow> ExpState" where
  "mountState w =
     \<lparr> globalOperationCounter = 0, currentOpIdRef = 0, loading = True, error = None,
       initialized = False, statuses = [], lastValidStakedMiners = [],
       lastFetchTimeRef = 0, fetchInProgressRef = False, cooldownTime = 0,
       walletRef = w, debouncedFetchRef = None, timeouts = [], nextTimeoutId = 0,
       console = [] \<rparr>"

definition someWallet :: Wallet where
  "someWallet = \<lparr> connector = Some ''ronin'', address = Some ''0xabc'' \<rparr>"

text \<open>Every contract read rejects; nothing else touches the operation counter.\<close>

definition rejectingEnv :: FetchEnv where
  "rejectingEnv =
     \<lparr> setupError = None, MEAL_COOLDOWN = None, getStakedMiners = None,
       expeditions = (\<lambda>m. None), getMinerMealStatus = (\<lambda>m. None),
       otherOpsBeforeLoop = 0, otherOpsDuring = (\<lambda>m. 0) \<rparr>"

text \<open>Every read succeeds: one staked miner, 7, not on expedition, fed at second 100.\<close>

definition goodEnv :: FetchEnv where
  "goodEnv =
     \<lparr> setupError = None, MEAL_COOLDOWN = Some 21600, getStakedMiners = Some [7],
       expeditions = (\<lambda>m. Some (0, 0, False)), getMinerMealStatus = (\<lambda>m. Some (3, 100)),
       otherOpsBeforeLoop = 0, otherOpsDuring = (\<lambda>m. 0) \<rparr>"

text \<open>The list read succeeds, the reads of the miner reject.\<close>

definition minerReadsRejectEnv :: FetchEnv where
  "minerReadsRejectEnv = rejectingEnv\<lparr> getStakedMiners := Some [7] \<rparr>"

text \<open>The list read succeeds, and another operation starts while this one awaits it.\<close>

definition supersededEnv :: FetchEnv where
  "supersededEnv = rejectingEnv\<lparr> getStakedMiners := Some [7], otherOpsBeforeLoop := 1 \<rparr>"

text \<open>The first, forced fetch after mount has started (operation 1, at time 1000).\<close>

definition inFlightState :: ExpState where
  "inFlightState = snd (timerCallback True 1000 (mountState someWallet))"

text \<open>Operation 1 has completed against \<open>goodEnv\<close>.\<close>

definition afterGoodCycle :: ExpState where
  "afterGoodCycle = runFetch goodEnv [] 1 1000 inFlightState"

text \<open>A second, forced fetch has started (operation 2, at time 7000).\<close>

definition secondInFlight :: ExpState where
  "secondInFlight = snd (timerCallback True 7000 afterGoodCycle)"

text \<open>
  Operation 2 was started by a trigger at 7200; a trigger arrived at 8000 while it was in
  flight; then it completed.
\<close>

definition burstDuringFetch :: ExpState where
  "burstDuringFetch =
     runFetch goodEnv [] 2 7500
       (snd (exec [Trigger True 7200, Advance 7500, Trigger True 8000] afterGoodCycle))"

definition fedSeven :: ExpeditionStatus where
  "fedSeven =
     \<lparr> minerId = 7, onExpedition = False, startTime = 0, endTime = 0, completed = False,
       eligibleForNewExpedition = True,
       fedStatus = \<lparr> mealId = 3, timestamp = 100, isActive = True, expiryTime = 21700 \<rparr> \<rparr>"

definition unfedSeven :: ExpeditionStatus where
  "unfedSeven =
     \<lparr> minerId = 7, onExpedition = False, startTime = 0, endTime = 0, completed = False,
       eligibleForNewExpedition = False,
       fedStatus = \<lparr> mealId = 0, timestamp = 0, isActive = False, expiryTime = 21600 \<rparr> \<rparr>"

text \<open>
  What \<open>Number\<close> gives for four decimal literals, the double nearest to each, and
  \<open>NaN\<close> as a stand-in for every other string.
\<close>

definition exampleNumber :: "string \<Rightarrow> number" where
  "exampleNumber s =
     (if s = ''100'' then Num False 100
      else if s = ''0.01'' then Num False (nearestDouble (1 / 100))
      else if s = ''0.1'' then Num False (nearestDouble (1 / 10))
      else if s = ''0.2'' then Num False (nearestDouble (1 / 5))
      else NaN)"

fun digitsOf :: "nat \<Rightarrow> string" where
  "digitsOf n =
     (if n < 10 then [''0123456789'' ! n]
      else digitsOf (n div 10) @ [''0123456789'' ! (n mod 10)])"

text \<open>
  What \<open>toString\<close> gives for the integers below \<open>10^21\<close>, for not-a-number and for the
  infinities; \<open>''?''\<close> stands in for the digits of every other number.
\<close>

definition printInteger :: "number \<Rightarrow> string" where
  "printInteger x =
     (case x of
        NaN \<Rightarrow> ''NaN''
      | Infinity s \<Rightarrow> (if s then ''-Infinity'' else ''Infinity'')
      | Num s a \<Rightarrow>
          (if a = of_int \<lfloor>a\<rfloor> \<and> a < 10 ^ 21
           then (if s \<and> a \<noteq> 0 then ''-'' else []) @ digitsOf (nat \<lfloor>a\<rfloor>)
           else ''?''))"

section \<open>The example states, evaluated\<close>

lemma inFlight:
  "inFlightState =
     (mountState someWallet)\<lparr> fetchInProgressRef := True, globalOperationCounter := 1,
        currentOpIdRef := 1, lastFetchTimeRef := 1000, loading := True, error := None \<rparr>"
  by (simp add: inFlightState_def timerCallback_def mountState_def someWallet_def noAddress_def)

lemma afterGood:
  "afterGoodCycle =
     \<lparr> globalOperationCounter = 1, currentOpIdRef = 1, loading = False, error = None,
       initialized = True, statuses = [fedSeven], lastValidStakedMiners = [7],
       lastFetchTimeRef = 1000, fetchInProgressRef = False, cooldownTime = 6000,
       walletRef = someWallet, debouncedFetchRef = None, timeouts = [], nextTimeoutId = 0,
       console = [] \<rparr>"
  by (simp add: afterGoodCycle_def inFlight runFetch_def goodEnv_def readStakedMiners_def
      otherOps_def finallyBlock_def commitResults_def mountState_def Let_def fedSeven_def
      processMiner_def toISOStringThrows_def REFETCH_COOLDOWN_MS_def)

lemma secondFlight:
  "secondInFlight =
     afterGoodCycle\<lparr> fetchInProgressRef := True, globalOperationCounter := 2,
        currentOpIdRef := 2, lastFetchTimeRef := 7000, loading := True, error := None \<rparr>"
  by (simp add: secondInFlight_def afterGood timerCallback_def someWallet_def noAddress_def)

section \<open>The loop over the miners\<close>

text \<open>The loop writes nothing of the hook's state but the console and the counter it models.\<close>

lemma loopMiners_frame:
  "\<exists>c g. snd (loopMiners env opId cd nowS ms s acc) =
           s\<lparr> globalOperationCounter := g, console := c \<rparr>"
proof (induction ms arbitrary: s acc)
  case Nil
  have "s = s\<lparr> globalOperationCounter := globalOperationCounter s, console := console s \<rparr>"
    by simp
  then show ?case by (metis loopMiners.simps(1) snd_conv)
next
  case (Cons m ms)
  show ?case
  proof (cases "opId = globalOperationCounter s")
    case False
    have "s = s\<lparr> globalOperationCounter := globalOperationCounter s, console := console s \<rparr>"
      by simp
    with False show ?thesis by (metis loopMiners.simps(2) snd_conv)
  next
    case True
    obtain st lg where
      p: "processMiner opId cd nowS m (expeditions env m) (getMinerMealStatus env m) = (st, lg)"
      by (cases "processMiner opId cd nowS m (expeditions env m) (getMinerMealStatus env m)")
    let ?s1 = "s\<lparr> console := console s @ lg,
                    globalOperationCounter := globalOperationCounter s + otherOpsDuring env m \<rparr>"
    let ?acc = "(case st of Some x \<Rightarrow> acc @ [x] | None \<Rightarrow> acc)"
    from Cons.IH[of ?s1 ?acc] obtain c g where
      "snd (loopMiners env opId cd nowS ms ?s1 ?acc) =
         ?s1\<lparr> globalOperationCounter := g, console := c \<rparr>"
      by blast
    then have "snd (loopMiners env opId cd nowS (m # ms) s acc) =
                 s\<lparr> globalOperationCounter := g, console := c \<rparr>"
      using True p by simp
    then show ?thesis by blast
  qed
qed


text \<open>
  When no other operation starts during the loop, every miner of the list is processed,
  whatever its reads and those of the miners before it returned.
\<close>

lemma loopMiners_quiet:
  "opId = globalOperationCounter s \<Longrightarrow> list_all (\<lambda>m. otherOpsDuring env m = 0) ms \<Longrightarrow>
   loopMiners env opId cd nowS ms s acc =
     (Some (acc @ List.map_filter
              (\<lambda>m. fst (processMiner opId cd nowS m (expeditions env m) (getMinerMealStatus env m)))
              ms),
      s\<lparr> console := console s @ concat (map
              (\<lambda>m. snd (processMiner opId cd nowS m (expeditions env m) (getMinerMealStatus env m)))
              ms) \<rparr>)"
proof (induction ms arbitrary: s acc)
  case Nil
  then show ?case by simp
next
  case (Cons m ms)
  obtain st lg where
    p: "processMiner opId cd nowS m (expeditions env m) (getMinerMealStatus env m) = (st, lg)"
    by (cases "processMiner opId cd nowS m (expeditions env m) (getMinerMealStatus env m)")
  let ?s1 = "s\<lparr> console := console s @ lg \<rparr>"
  let ?acc = "(case st of Some x \<Rightarrow> acc @ [x] | None \<Rightarrow> acc)"
  have z: "otherOpsDuring env m = 0" and rest: "list_all (\<lambda>m. otherOpsDuring env m = 0) ms"
    using Cons.prems(2) by simp_all
  have cur: "opId = globalOperationCounter ?s1" using Cons.prems(1) by simp
  have step: "loopMiners env opId cd nowS (m # ms) s acc = loopMiners env opId cd nowS ms ?s1 ?acc"
    using Cons.prems(1) p z by simp
  show ?case
    unfolding step Cons.IH[OF cur rest]
    using p by (cases st) simp_all
qed

section \<open>One fetch, undisturbed\<close>

lemma finallyBlock_counter [simp]:
  "globalOperationCounter (finallyBlock opId s) = globalOperationCounter s"
  by (simp add: finallyBlock_def Let_def)

lemma commitResults_counter [simp]:
  "globalOperationCounter (commitResults opId now ms ns s) = globalOperationCounter s"
  by (simp add: commitResults_def Let_def)

lemma catchBlock_counter [simp]:
  "globalOperationCounter (catchBlock opId msg s) = globalOperationCounter s"
  by (simp add: catchBlock_def)

lemma readStakedMiners_counter:
  "globalOperationCounter (snd (readStakedMiners r cached s)) = globalOperationCounter s"
  by (simp add: readStakedMiners_def split: option.splits)

text \<open>
  What a fetch commits when its set-up succeeds and no other operation starts before it
  completes.
\<close>

lemma runFetch_quiet:
  assumes "setupError env = None" and "opId = globalOperationCounter s"
    and "otherOpsBeforeLoop env = 0"
    and "list_all (\<lambda>m. otherOpsDuring env m = 0)
           (fst (readStakedMiners (getStakedMiners env) cached s))"
  shows "statuses (runFetch env cached opId now s) =
           List.map_filter (\<lambda>m. fst (processMiner opId
               (case MEAL_COOLDOWN env of Some c \<Rightarrow> c | None \<Rightarrow> MEAL_DURATION_SECONDS)
               (now div 1000) m (expeditions env m) (getMinerMealStatus env m)))
             (fst (readStakedMiners (getStakedMiners env) cached s))
         \<and> initialized (runFetch env cached opId now s)
         \<and> \<not> loading (runFetch env cached opId now s)
         \<and> \<not> fetchInProgressRef (runFetch env cached opId now s)
         \<and> lastValidStakedMiners (runFetch env cached opId now s) =
             (if fst (readStakedMiners (getStakedMiners env) cached s) = []
              then lastValidStakedMiners s
              else fst (readStakedMiners (getStakedMiners env) cached s))"
proof -
  let ?cd = "(case MEAL_COOLDOWN env of Some c \<Rightarrow> c | None \<Rightarrow> MEAL_DURATION_SECONDS)"
  let ?f = "\<lambda>m. fst (processMiner opId ?cd (now div 1000) m (expeditions env m)
                        (getMinerMealStatus env m))"
  obtain miners s1 where rd: "readStakedMiners (getStakedMiners env) cached s = (miners, s1)"
    by (cases "readStakedMiners (getStakedMiners env) cached s")
  have c1: "opId = globalOperationCounter s1"
    using readStakedMiners_counter[of "getStakedMiners env" cached s] rd assms(2) by simp
  have o: "otherOps (otherOpsBeforeLoop env) s1 = s1" using assms(3) by (simp add: otherOps_def)
  have q: "list_all (\<lambda>m. otherOpsDuring env m = 0) miners" using assms(4) rd by simp
  have lv1: "miners = [] \<Longrightarrow> lastValidStakedMiners s1 = lastValidStakedMiners s"
    using rd by (auto simp: readStakedMiners_def split: option.splits if_splits)
  obtain s3 where
    lp: "loopMiners env opId ?cd (now div 1000) miners s1 [] = (Some (List.map_filter ?f miners), s3)"
    and s3: "globalOperationCounter s3 = opId" "lastValidStakedMiners s3 = lastValidStakedMiners s1"
    using loopMiners_quiet[OF c1 q, of ?cd "now div 1000" "[]"] c1 by simp
  have r: "runFetch env cached opId now s =
             (finallyBlock opId (commitResults opId now miners (List.map_filter ?f miners) s3))
               \<lparr> debouncedFetchRef := None \<rparr>"
    using assms(1) rd o lp by (simp add: runFetch_def Let_def)
  show ?thesis
    unfolding r using s3 lv1 rd
    by (simp add: commitResults_def finallyBlock_def Let_def)
qed

section \<open>A failed read of the staked miners (claim C1)\<close>

text \<open>
  Claim C1, as the code has it by design. When the read of the staked miners rejects,
  and also when one of the two later reads does, \<open>getStakingData\<close> returns the fixed
  fall-back data: no miners, count 0, rewards and rate \<open>''0''\<close>, the time of the
  failure. It leaves the service as it was, its \<open>lastSyncTimestamp\<close> included: the
  service keeps no earlier result, and nothing marks a result as stale.
\<close>

theorem getStakingData_failed_read:
  "getStakingData fu None b c w t svc =
     (\<lparr> stakedMiners = [], stakedMinerCount = 0, pendingRewards = ''0'',
        gemsPerSecond = ''0'', lastSyncTimestamp = t, userAddress = w \<rparr>, svc)
   \<and> getStakingData fu a None c w t svc =
     (\<lparr> stakedMiners = [], stakedMinerCount = 0, pendingRewards = ''0'',
        gemsPerSecond = ''0'', lastSyncTimestamp = t, userAddress = w \<rparr>, svc)
   \<and> getStakingData fu a b None w t svc =
     (\<lparr> stakedMiners = [], stakedMinerCount = 0, pendingRewards = ''0'',
        gemsPerSecond = ''0'', lastSyncTimestamp = t, userAddress = w \<rparr>, svc)"
  by (simp add: getStakingData_def fallbackData_def Let_def split: option.splits)

text \<open>
  Against claim C1 as stated: after a synchronisation that returned the miners \<open>[1, 2]\<close>
  and rewards \<open>''12.5''\<close>, a synchronisation whose read of the staked miners rejects
  returns no miners and rewards \<open>''0''\<close>.
\<close>

theorem failed_read_zeroes_staking_data:
  "stakedMiners (fst (getStakingData (\<lambda>n. ''12.5'') (Some [1, 2]) (Some 5) (Some 1) ''0xabc'' 1000
        \<lparr> svcLastSyncTimestamp = 0 \<rparr>)) = [1, 2]
   \<and> pendingRewards (fst (getStakingData (\<lambda>n. ''12.5'') (Some [1, 2]) (Some 5) (Some 1) ''0xabc''
        1000 \<lparr> svcLastSyncTimestamp = 0 \<rparr>)) = ''12.5''
   \<and> stakedMiners (fst (getStakingData (\<lambda>n. ''12.5'') None (Some 5) (Some 1) ''0xabc'' 2000
        \<lparr> svcLastSyncTimestamp = 1000 \<rparr>)) = []
   \<and> pendingRewards (fst (getStakingData (\<lambda>n. ''12.5'') None (Some 5) (Some 1) ''0xabc'' 2000
        \<lparr> svcLastSyncTimestamp = 1000 \<rparr>)) = ''0''"
  by (simp add: getStakingData_def fallbackData_def Let_def)

text \<open>
  \<open>useExpeditions\<close> means to fall back to \<open>lastValidStakedMiners\<close> when the read of the
  staked miners rejects, but its callback is memoised with an empty dependency list and
  keeps reading the empty list of the first render. So a fetch that stays current and
  whose read rejects commits no statuses, whatever \<open>lastValidStakedMiners\<close> holds by
  then.
\<close>

lemma failed_read_with_first_render_list:
  "lastValidStakedMiners secondInFlight = [7]
   \<and> statuses secondInFlight = [fedSeven]
   \<and> statuses (runFetch rejectingEnv [] 2 7000 secondInFlight) = []
   \<and> initialized (runFetch rejectingEnv [] 2 7000 secondInFlight)"
  by (simp add: secondFlight afterGood runFetch_def rejectingEnv_def readStakedMiners_def
      otherOps_def finallyBlock_def commitResults_def Let_def)

section \<open>A superseded fetch (claim C2)\<close>

text \<open>
  Claim C2, as the code has it. A fetch whose operation identifier differs from
  \<open>globalOperationCounter\<close> when it ends has written none of \<open>statuses\<close>,
  \<open>initialized\<close>, \<open>error\<close>, \<open>loading\<close> and \<open>cooldownTime\<close> since its first await: each
  of these writes is behind a comparison of the identifier with the counter. It has
  still cleared \<open>fetchInProgressRef\<close>. The same holds block by block, in whatever
  state a newer operation has left: with a stale identifier the completing block and
  the \<open>catch\<close> block change nothing, and the \<open>finally\<close> block only clears
  \<open>fetchInProgressRef\<close>.
\<close>

theorem stale_completion_discards:
  assumes stale: "globalOperationCounter (runFetch env cached opId now s) \<noteq> opId"
  shows "statuses (runFetch env cached opId now s) = statuses s
       \<and> initialized (runFetch env cached opId now s) = initialized s
       \<and> error (runFetch env cached opId now s) = error s
       \<and> loading (runFetch env cached opId now s) = loading s
       \<and> cooldownTime (runFetch env cached opId now s) = cooldownTime s
       \<and> fetchInProgressRef (runFetch env cached opId now s) = False
       \<and> (\<forall>s'. globalOperationCounter s' \<noteq> opId \<longrightarrow>
              commitResults opId now ms ns s' = s' \<and> catchBlock opId msg s' = s'
              \<and> finallyBlock opId s' = s'\<lparr> fetchInProgressRef := False \<rparr>)"
proof -
  have blocks: "\<forall>s'. globalOperationCounter s' \<noteq> opId \<longrightarrow>
              commitResults opId now ms ns s' = s' \<and> catchBlock opId msg s' = s'
              \<and> finallyBlock opId s' = s'\<lparr> fetchInProgressRef := False \<rparr>"
    by (auto simp: commitResults_def catchBlock_def finallyBlock_def Let_def)
  have fields: "statuses (runFetch env cached opId now s) = statuses s
       \<and> initialized (runFetch env cached opId now s) = initialized s
       \<and> error (runFetch env cached opId now s) = error s
       \<and> loading (runFetch env cached opId now s) = loading s
       \<and> cooldownTime (runFetch env cached opId now s) = cooldownTime s
       \<and> fetchInProgressRef (runFetch env cached opId now s) = False"
  proof (cases "setupError env")
  case (Some msg)
  let ?s1 = "otherOps (otherOpsBeforeLoop env) s"
  have r: "runFetch env cached opId now s =
             (finallyBlock opId (catchBlock opId msg ?s1))\<lparr> debouncedFetchRef := None \<rparr>"
    using Some by (simp add: runFetch_def)
  have "globalOperationCounter ?s1 \<noteq> opId" using stale unfolding r by simp
  then show ?thesis unfolding r
    by (auto simp: finallyBlock_def catchBlock_def otherOps_def Let_def)
next
  case None
  let ?cd = "(case MEAL_COOLDOWN env of Some c \<Rightarrow> c | None \<Rightarrow> MEAL_DURATION_SECONDS)"
  obtain miners s1 where rd: "readStakedMiners (getStakedMiners env) cached s = (miners, s1)"
    by (cases "readStakedMiners (getStakedMiners env) cached s")
  let ?s2 = "otherOps (otherOpsBeforeLoop env) s1"
  obtain res s3 where lp: "loopMiners env opId ?cd (now div 1000) miners ?s2 [] = (res, s3)"
    by (cases "loopMiners env opId ?cd (now div 1000) miners ?s2 []")
  obtain c g where fr: "s3 = ?s2\<lparr> globalOperationCounter := g, console := c \<rparr>"
    using loopMiners_frame[of env opId ?cd "now div 1000" miners ?s2 "[]"] lp by auto
  have s1f: "statuses s1 = statuses s \<and> initialized s1 = initialized s \<and> error s1 = error s
           \<and> loading s1 = loading s \<and> cooldownTime s1 = cooldownTime s"
    using rd by (auto simp: readStakedMiners_def split: option.splits if_splits)
  have s3f: "statuses s3 = statuses s \<and> initialized s3 = initialized s \<and> error s3 = error s
           \<and> loading s3 = loading s \<and> cooldownTime s3 = cooldownTime s"
    using s1f unfolding fr by (simp add: otherOps_def)
  show ?thesis
  proof (cases res)
    case None
    have r: "runFetch env cached opId now s = finallyBlock opId s3"
      using \<open>setupError env = None\<close> rd lp None by (simp add: runFetch_def Let_def)
    have "globalOperationCounter s3 \<noteq> opId" using stale unfolding r by simp
    then show ?thesis unfolding r using s3f by (auto simp: finallyBlock_def Let_def)
  next
    case (Some newStatuses)
    have r: "runFetch env cached opId now s =
               (finallyBlock opId (commitResults opId now miners newStatuses s3))
                 \<lparr> debouncedFetchRef := None \<rparr>"
      using \<open>setupError env = None\<close> rd lp Some by (simp add: runFetch_def Let_def)
    have "globalOperationCounter s3 \<noteq> opId" using stale unfolding r by simp
    then show ?thesis unfolding r using s3f
      by (auto simp: finallyBlock_def commitResults_def Let_def)
  qed
  qed
  from fields blocks show ?thesis by blast
qed

text \<open>
  An instance: operation 1 reads the list \<open>[7]\<close> while another operation starts; it
  leaves at the head of the loop.
\<close>

theorem stale_completion_discards_witness:
  "globalOperationCounter (runFetch supersededEnv [] 1 1000 inFlightState) \<noteq> 1
   \<and> statuses (runFetch supersededEnv [] 1 1000 inFlightState) = []
   \<and> loading (runFetch supersededEnv [] 1 1000 inFlightState) = True
   \<and> initialized (runFetch supersededEnv [] 1 1000 inFlightState) = False"
proof -
  have st: "globalOperationCounter (runFetch supersededEnv [] 1 1000 inFlightState) \<noteq> 1"
    by (simp add: inFlight runFetch_def supersededEnv_def rejectingEnv_def readStakedMiners_def
        otherOps_def finallyBlock_def mountState_def Let_def)
  show ?thesis
    using st stale_completion_discards[OF st]
    by (simp add: inFlight mountState_def)
qed

text \<open>
  Against claim C2 as stated: the same superseded operation has changed the state the
  cycles share. It stored the list it read in \<open>lastValidStakedMiners\<close> before any
  comparison with the counter, and it cleared \<open>fetchInProgressRef\<close> on its way out.
\<close>

theorem stale_cycle_still_writes:
  "globalOperationCounter (runFetch supersededEnv [] 1 1000 inFlightState) \<noteq> 1
   \<and> lastValidStakedMiners inFlightState = []
   \<and> lastValidStakedMiners (runFetch supersededEnv [] 1 1000 inFlightState) = [7]
   \<and> fetchInProgressRef inFlightState = True
   \<and> fetchInProgressRef (runFetch supersededEnv [] 1 1000 inFlightState) = False"
  by (simp add: inFlight runFetch_def supersededEnv_def rejectingEnv_def readStakedMiners_def
      otherOps_def finallyBlock_def mountState_def Let_def)

section \<open>Cooldown, force and the fetch in flight (claim C3)\<close>




section \<open>Failed reads of one miner (claim C4)\<close>

text \<open>
  Claim C4, as the code has it. While no other operation starts, the loop processes
  every miner of the list, whatever the reads of the others returned. A miner whose two
  reads reject is still in the result, with the initial values in place of what was not
  read: no expedition, meal 0 at time 0, not fed, not eligible. A miner of which one
  read rejects is in the result with the initial values for that read and the values
  read by the other. Its earlier status is not consulted. (The times of the log lines
  are assumed to be times that \<open>toISOString\<close> can print.)
\<close>

theorem read_failures_keep_the_batch:
  assumes "opId = globalOperationCounter s"
    and "list_all (\<lambda>m. otherOpsDuring env m = 0) ms"
    and "\<not> toISOStringThrows (cd * 1000)"
  shows "fst (loopMiners env opId cd nowS ms s []) =
           Some (List.map_filter
                   (\<lambda>m. fst (processMiner opId cd nowS m (expeditions env m)
                                (getMinerMealStatus env m))) ms)
       \<and> fst (processMiner opId cd nowS m None None) =
           Some \<lparr> minerId = m, onExpedition = False, startTime = 0, endTime = 0,
                  completed = False, eligibleForNewExpedition = False,
                  fedStatus = \<lparr> mealId = 0, timestamp = 0, isActive = False,
                                expiryTime = cd \<rparr> \<rparr>
       \<and> (\<exists>st. fst (processMiner opId cd nowS m e None) = Some st \<and> minerId st = m
               \<and> \<not> eligibleForNewExpedition st
               \<and> fedStatus st = \<lparr> mealId = 0, timestamp = 0, isActive = False,
                                   expiryTime = cd \<rparr>)
       \<and> (\<not> toISOStringThrows ((ts + cd) * 1000) \<and> \<not> toISOStringThrows (ts + cd * 1000) \<longrightarrow>
            fst (processMiner opId cd nowS m None (Some (mid, ts))) =
              Some \<lparr> minerId = m, onExpedition = False, startTime = 0, endTime = 0,
                     completed = False, eligibleForNewExpedition = (ts > 0),
                     fedStatus = \<lparr> mealId = mid, timestamp = ts, isActive = (ts > 0),
                                   expiryTime = ts + cd \<rparr> \<rparr>)"
proof -
  have a: "fst (loopMiners env opId cd nowS ms s []) =
           Some (List.map_filter
                   (\<lambda>m. fst (processMiner opId cd nowS m (expeditions env m)
                                (getMinerMealStatus env m))) ms)"
    using loopMiners_quiet[OF assms(1,2), of cd nowS "[]"] by simp
  have b: "fst (processMiner opId cd nowS m None None) =
           Some \<lparr> minerId = m, onExpedition = False, startTime = 0, endTime = 0,
                  completed = False, eligibleForNewExpedition = False,
                  fedStatus = \<lparr> mealId = 0, timestamp = 0, isActive = False,
                                expiryTime = cd \<rparr> \<rparr>"
    using assms(3) by (simp add: processMiner_def Let_def)
  have c: "\<exists>st. fst (processMiner opId cd nowS m e None) = Some st \<and> minerId st = m
               \<and> \<not> eligibleForNewExpedition st
               \<and> fedStatus st = \<lparr> mealId = 0, timestamp = 0, isActive = False,
                                   expiryTime = cd \<rparr>"
    using assms(3) by (cases e) (auto simp: processMiner_def Let_def)
  have d: "\<not> toISOStringThrows ((ts + cd) * 1000) \<and> \<not> toISOStringThrows (ts + cd * 1000) \<longrightarrow>
            fst (processMiner opId cd nowS m None (Some (mid, ts))) =
              Some \<lparr> minerId = m, onExpedition = False, startTime = 0, endTime = 0,
                     completed = False, eligibleForNewExpedition = (ts > 0),
                     fedStatus = \<lparr> mealId = mid, timestamp = ts, isActive = (ts > 0),
                                   expiryTime = ts + cd \<rparr> \<rparr>"
    by (simp add: processMiner_def Let_def)
  from a b c d show ?thesis by blast
qed

text \<open>
  An instance: of the miners 7 and 8, the reads of 7 reject and those of 8 succeed; both
  are in the result, 7 with the initial values.
\<close>

theorem read_failures_keep_the_batch_witness:
  "map_option (map minerId) (fst (loopMiners
       (goodEnv\<lparr> expeditions := (\<lambda>m. if m = 7 then None else Some (0, 0, False)),
                 getMinerMealStatus := (\<lambda>m. if m = 7 then None else Some (3, 100)) \<rparr>)
       2 21600 7 [7, 8] secondInFlight [])) = Some [7, 8]
   \<and> fst (processMiner 2 21600 7 7 None None) = Some unfedSeven"
proof -
  let ?env = "goodEnv\<lparr> expeditions := (\<lambda>m. if m = 7 then None else Some (0, 0, False)),
                       getMinerMealStatus := (\<lambda>m. if m = 7 then None else Some (3, 100)) \<rparr>"
  have h1: "2 = globalOperationCounter secondInFlight" by (simp add: secondFlight)
  have h2: "list_all (\<lambda>m. otherOpsDuring ?env m = 0) [7, 8]" by (simp add: goodEnv_def)
  have h3: "\<not> toISOStringThrows (21600 * 1000)" by (simp add: toISOStringThrows_def)
  show ?thesis
    using read_failures_keep_the_batch[OF h1 h2 h3, where nowS = 7 and m = 7 and e = None]
    by (simp add: processMiner_def toISOStringThrows_def Let_def List.map_filter_simps
        unfedSeven_def)
qed

text \<open>
  Against claim C4 as stated: miner 7 was read as fed (meal 3 at time 100) by the first
  fetch; in the second fetch its two reads reject, and the status committed for it holds
  meal 0 at time 0, not fed, instead of what was last known.
\<close>

theorem failed_miner_read_forgets_status:
  "statuses secondInFlight = [fedSeven]
   \<and> timestamp (fedStatus fedSeven) = 100
   \<and> statuses (runFetch minerReadsRejectEnv [7] 2 7000 secondInFlight) = [unfedSeven]
   \<and> timestamp (fedStatus unfedSeven) = 0"
  by (simp add: secondFlight afterGood runFetch_def minerReadsRejectEnv_def rejectingEnv_def
      readStakedMiners_def otherOps_def finallyBlock_def commitResults_def Let_def fedSeven_def
      unfedSeven_def processMiner_def toISOStringThrows_def MEAL_DURATION_SECONDS_def
      REFETCH_COOLDOWN_MS_def)

section \<open>The aggregates over no miners (claim C5)\<close>

text \<open>
  Claim C5, as the code has it. The aggregates are booleans and have no value of their
  own for the empty set: over no statuses \<open>allMinersEligible\<close>, \<open>allMinersFed\<close> and
  \<open>anyOnExpedition\<close> are false and the lists of eligible and of returning miners are
  empty, while the \<open>allMinersFed\<close> of \<open>useFeedingStatus\<close> is true, with no statuses.
\<close>

theorem empty_set_aggregates_are_booleans:
  "allMinersEligible [] = False \<and> allMinersFed [] = False \<and> anyOnExpedition i [] = False
   \<and> eligibleMiners [] = [] \<and> readyToComplete t [] = []
   \<and> useFeedingStatus n = \<lparr> fsStatuses = [], fsAllMinersFed = True, fsLoading = False \<rparr>"
  by (simp add: allMinersEligible_def allMinersFed_def anyOnExpedition_def eligibleMiners_def
      readyToComplete_def useFeedingStatus_def)

text \<open>
  Against claim C5 as stated: the answers over no miners are those over the one miner 7,
  unfed and ineligible, so the empty set cannot be told from it; and \<open>useFeedingStatus\<close>
  answers true over no miners.
\<close>

theorem empty_set_not_distinguished:
  "allMinersEligible [] = allMinersEligible [unfedSeven]
   \<and> allMinersFed [] = allMinersFed [unfedSeven]
   \<and> fsAllMinersFed (useFeedingStatus 30000) = True
   \<and> fsStatuses (useFeedingStatus 30000) = []"
  by (simp add: allMinersEligible_def allMinersFed_def unfedSeven_def useFeedingStatus_def)

section \<open>The eligibility mismatch (claim C6)\<close>





section \<open>The reward estimate (claim C7)\<close>

subsection \<open>The rounding is to a nearest double\<close>

lemma roundHalfEven_close: "\<bar>of_int (roundHalfEven x) - x\<bar> \<le> 1 / 2"
proof -
  let ?f = "\<lfloor>x\<rfloor>"
  have lo: "of_int ?f \<le> x" and hi: "x < of_int ?f + 1" by linarith+
  consider "x - of_int ?f < 1 / 2" | "x - of_int ?f > 1 / 2" | "x - of_int ?f = 1 / 2"
    by linarith
  then show ?thesis
  proof cases
    case 1
    then have r: "roundHalfEven x = ?f" by (simp add: roundHalfEven_def Let_def)
    show ?thesis unfolding r using lo hi 1 by linarith
  next
    case 2
    then have r: "roundHalfEven x = ?f + 1" by (simp add: roundHalfEven_def Let_def)
    have c: "(of_int (?f + 1) :: rat) = of_int ?f + 1" by simp
    show ?thesis unfolding r c using lo hi 2 by linarith
  next
    case 3
    have c: "(of_int (?f + 1) :: rat) = of_int ?f + 1" by simp
    from 3 have "roundHalfEven x = ?f \<or> roundHalfEven x = ?f + 1"
      by (simp add: roundHalfEven_def Let_def)
    then show ?thesis
    proof
      assume r: "roundHalfEven x = ?f"
      show ?thesis unfolding r using 3 by linarith
    next
      assume r: "roundHalfEven x = ?f + 1"
      show ?thesis unfolding r c using 3 by linarith
    qed
  qed
qed

lemma roundHalfEven_le: "x \<le> of_int N \<Longrightarrow> roundHalfEven x \<le> N"
proof -
  assume a: "x \<le> of_int N"
  have c: "\<bar>of_int (roundHalfEven x) - x\<bar> \<le> 1 / 2" by (rule roundHalfEven_close)
  have "(of_int (roundHalfEven x) :: rat) \<le> of_int N + 1 / 2" using a c by linarith
  then have "(of_int (roundHalfEven x) :: rat) < of_int (N + 1)" by simp
  then have "roundHalfEven x < N + 1" using of_int_less_iff by blast
  then show ?thesis by simp
qed

lemma roundHalfEven_nonneg: "0 \<le> x \<Longrightarrow> 0 \<le> roundHalfEven x"
proof -
  assume a: "0 \<le> x"
  have c: "\<bar>of_int (roundHalfEven x) - x\<bar> \<le> 1 / 2" by (rule roundHalfEven_close)
  have "(of_int (roundHalfEven x) :: rat) \<ge> - 1 / 2" using a c by linarith
  then have "(of_int (roundHalfEven x) :: rat) > of_int (- 1)" by simp
  then have "roundHalfEven x > - 1" using of_int_less_iff by blast
  then show ?thesis by simp
qed

lemma pow2_pos: "0 < pow2 e"
  by (simp add: pow2_def)

lemma pow2_power_int: "pow2 e = power_int 2 e"
  by (simp add: pow2_def power_int_def inverse_eq_divide power_one_over)

lemma pow2_add: "pow2 (a + b) = pow2 a * pow2 b"
  by (simp add: pow2_power_int power_int_add)

lemma pow2_mono: "a \<le> b \<Longrightarrow> pow2 a \<le> pow2 b"
  by (simp add: pow2_power_int power_int_increasing)

lemma ilog2_bounds:
  assumes "0 < m"
  shows "pow2 (ilog2 m) \<le> m \<and> m < pow2 (ilog2 m + 1)"
proof (cases "m \<ge> 1")
  case True
  let ?n = "\<lfloor>m\<rfloor>"
  have n: "?n > 0" using True by linarith
  from bitlen_bounds[OF n] have b1: "2 ^ nat (bitlen ?n - 1) \<le> ?n"
    and b2: "?n < 2 ^ nat (bitlen ?n)"
    by simp_all
  have k: "bitlen ?n \<ge> 1" using n by (simp add: bitlen_alt_def)
  have "(2::rat) ^ nat (bitlen ?n - 1) = of_int (2 ^ nat (bitlen ?n - 1))" by simp
  also have "\<dots> \<le> of_int ?n" using b1 of_int_le_iff by blast
  also have "\<dots> \<le> m" by linarith
  finally have lo: "(2::rat) ^ nat (bitlen ?n - 1) \<le> m" .
  have "?n + 1 \<le> 2 ^ nat (bitlen ?n)" using b2 by linarith
  then have "of_int (?n + 1) \<le> (of_int (2 ^ nat (bitlen ?n)) :: rat)"
    using of_int_le_iff by blast
  moreover have "m < of_int (?n + 1)" by linarith
  ultimately have hi: "m < (2::rat) ^ nat (bitlen ?n)" by simp
  show ?thesis using True k lo hi by (simp add: ilog2_def pow2_def)
next
  case False
  let ?b = "1 / m"
  let ?N = "\<lceil>?b\<rceil>"
  have b: "?b > 1" using False assms by simp
  have N: "?N - 1 > 0" using b by linarith
  let ?k = "bitlen (?N - 1)"
  from bitlen_bounds[OF N] have b1: "2 ^ nat (?k - 1) \<le> ?N - 1" and b2: "?N - 1 < 2 ^ nat ?k"
    by simp_all
  have k: "?k \<ge> 1" using N by (simp add: bitlen_alt_def)
  have "?N \<le> 2 ^ nat ?k" using b2 by linarith
  then have "of_int ?N \<le> (of_int (2 ^ nat ?k) :: rat)" using of_int_le_iff by blast
  then have "of_int ?N \<le> (2::rat) ^ nat ?k" by simp
  moreover have "?b \<le> of_int ?N" by linarith
  ultimately have "?b \<le> 2 ^ nat ?k" by (rule order_trans[rotated])
  then have lo: "1 / 2 ^ nat ?k \<le> m"
    using assms by (simp add: field_simps)
  have "(2::int) ^ nat (?k - 1) < ?N" using b1 by linarith
  then have "(of_int (2 ^ nat (?k - 1)) :: rat) < ?b" using less_ceiling_iff by blast
  then have "(2::rat) ^ nat (?k - 1) < 1 / m" by simp
  then have hi': "m * 2 ^ nat (?k - 1) < 1" using assms by (simp add: field_simps)
  have il: "ilog2 m = - ?k" using False by (simp add: ilog2_def)
  have lo2: "pow2 (ilog2 m) \<le> m" using lo k by (simp add: il pow2_def)
  have p: "pow2 (- ?k + 1) = 1 / 2 ^ nat (?k - 1)"
    using k by (cases "?k = 1") (auto simp: pow2_def)
  have "m < 1 / 2 ^ nat (?k - 1)" using hi' by (simp add: pos_less_divide_eq)
  then have hi2: "m < pow2 (ilog2 m + 1)" unfolding il p .
  show ?thesis using lo2 hi2 by blast
qed

text \<open>
  The rounded value is a multiple of the spacing with at most 53 bits, so it is a
  double, and it is within half the spacing of the argument.
\<close>

lemma nearestDouble_grid:
  assumes "0 < m"
  shows "\<exists>n. nearestDouble m = of_int n * pow2 (max (ilog2 m) (- 1022) - 52)
             \<and> 0 \<le> n \<and> n \<le> 2 ^ 53"
proof -
  let ?e = "max (ilog2 m) (- 1022)"
  let ?q = "pow2 (?e - 52)"
  let ?n = "roundHalfEven (m / ?q)"
  have q: "0 < ?q" by (rule pow2_pos)
  have "m < pow2 (ilog2 m + 1)" using ilog2_bounds[OF assms] by simp
  also have "\<dots> \<le> pow2 (?e + 1)" by (rule pow2_mono) simp
  also have "?e + 1 = 53 + (?e - 52)" by simp
  also have "pow2 (53 + (?e - 52)) = pow2 53 * ?q" by (rule pow2_add)
  finally have "m < pow2 53 * ?q" .
  then have "m / ?q < pow2 53" using q by (simp add: pos_divide_less_eq)
  then have "m / ?q \<le> of_int (2 ^ 53)" by (simp add: pow2_def)
  then have hi: "?n \<le> 2 ^ 53" by (rule roundHalfEven_le)
  have "0 \<le> m / ?q" using assms q by simp
  then have lo: "0 \<le> ?n" by (rule roundHalfEven_nonneg)
  have "nearestDouble m = of_int ?n * ?q" by (simp add: nearestDouble_def Let_def)
  then show ?thesis using lo hi by blast
qed

lemma nearestDouble_close:
  assumes "0 < m"
  shows "\<bar>nearestDouble m - m\<bar> \<le> pow2 (max (ilog2 m) (- 1022) - 52) / 2"
proof -
  let ?q = "pow2 (max (ilog2 m) (- 1022) - 52)"
  have q: "0 < ?q" by (rule pow2_pos)
  have "\<bar>of_int (roundHalfEven (m / ?q)) - m / ?q\<bar> \<le> 1 / 2" by (rule roundHalfEven_close)
  then have "\<bar>of_int (roundHalfEven (m / ?q)) - m / ?q\<bar> * ?q \<le> 1 / 2 * ?q"
    using q by (simp add: mult_right_mono)
  moreover have "\<bar>of_int (roundHalfEven (m / ?q)) - m / ?q\<bar> * ?q
                 = \<bar>of_int (roundHalfEven (m / ?q)) * ?q - m\<bar>"
  proof -
    have "\<bar>of_int (roundHalfEven (m / ?q)) - m / ?q\<bar> * ?q
            = \<bar>(of_int (roundHalfEven (m / ?q)) - m / ?q) * ?q\<bar>"
      using q by (simp add: abs_mult)
    also have "(of_int (roundHalfEven (m / ?q)) - m / ?q) * ?q
                 = of_int (roundHalfEven (m / ?q)) * ?q - m"
      using q by (simp add: left_diff_distrib)
    finally show ?thesis .
  qed
  ultimately show ?thesis by (simp add: nearestDouble_def Let_def)
qed

text \<open>The exponent test of \<open>roundMag\<close> is the test for a value of \<open>2^1024\<close> or more.\<close>

lemma overflow_iff: "(ilog2 r > 1023) = (r \<ge> 2 ^ 1024)"
proof (cases "0 < r")
  case True
  from ilog2_bounds[OF True] have lo: "pow2 (ilog2 r) \<le> r" and hi: "r < pow2 (ilog2 r + 1)"
    by simp_all
  have p: "pow2 1024 = 2 ^ 1024" by (simp add: pow2_def)
  show ?thesis
  proof
    assume "ilog2 r > 1023"
    then have "pow2 1024 \<le> pow2 (ilog2 r)" by (intro pow2_mono) simp
    then show "r \<ge> 2 ^ 1024" using lo p by linarith
  next
    assume a: "r \<ge> 2 ^ 1024"
    show "ilog2 r > 1023"
    proof (rule ccontr)
      assume "\<not> ilog2 r > 1023"
      then have "pow2 (ilog2 r + 1) \<le> pow2 1024" by (intro pow2_mono) simp
      then show False using hi a p by linarith
    qed
  qed
next
  case False
  then have "ilog2 r \<le> 0" using bitlen_nonneg by (simp add: ilog2_def)
  moreover have "\<not> r \<ge> 2 ^ 1024"
  proof
    assume "r \<ge> 2 ^ 1024"
    moreover have "(0::rat) < 2 ^ 1024" by simp
    ultimately show False using False by linarith
  qed
  ultimately show ?thesis by simp
qed

subsection \<open>The estimate in double arithmetic\<close>

lemma round_100000: "roundMag False 100000 = Num False 100000"
  by code_simp

lemma div_100000_1000: "numDiv (Num False 100000) (Num False 1000) = Num False 100"
  by code_simp

lemma mul_rate_5_100:
  "numMul (numMul (Num False (nearestDouble (1 / 100))) (Num False 5)) (Num False 100)
     = Num False 5"
  by code_simp

lemma add_100_5: "numAdd (Num False 100) (Num False 5) = Num False 105"
  by code_simp

lemma sub_times: "numSub (Num False (t + 100 * 1000)) (Num False t) = Num False 100000"
proof -
  have "numSub (Num False (t + 100 * 1000)) (Num False t) = roundMag False 100000"
    by (simp add: numSub_def signedValue_def)
  then show ?thesis by (simp only: round_100000)
qed

text \<open>
  Claim C7, as the code has it. With a miner count that is zero the estimate is the
  string of the base rewards itself, whatever time has passed. Otherwise it is the
  printed value of base plus rate times miner count times elapsed seconds computed in
  double arithmetic: the two strings are converted by \<open>Number\<close>, and the subtraction of
  the times, the division by 1000, the two multiplications and the addition are each
  rounded to a double. It agrees with the exact value only up to that rounding. With
  base 100, rate 0.01 and 5 miners, 100 seconds after the last update, it is 105.
\<close>

theorem estimateCurrentRewards_in_doubles:
  "(strictEqualsZero n \<longrightarrow> estimateCurrentRewards Number toString B r n T now = B)
   \<and> (\<not> strictEqualsZero n \<longrightarrow>
        estimateCurrentRewards Number toString B r n T now =
          toString (numAdd (Number B)
                      (numMul (numMul (Number r) n) (numDiv (numSub now T) (Num False 1000)))))
   \<and> (Number B = Num False 100 \<and> Number r = Num False (nearestDouble (1 / 100)) \<longrightarrow>
        estimateCurrentRewards Number toString B r (Num False 5) (Num False t)
            (Num False (t + 100 * 1000))
          = toString (Num False 105))"
proof -
  have a: "strictEqualsZero n \<longrightarrow> estimateCurrentRewards Number toString B r n T now = B"
    by (simp add: estimateCurrentRewards_def)
  have b: "\<not> strictEqualsZero n \<longrightarrow>
        estimateCurrentRewards Number toString B r n T now =
          toString (numAdd (Number B)
                      (numMul (numMul (Number r) n) (numDiv (numSub now T) (Num False 1000))))"
    by (simp add: estimateCurrentRewards_def updatedRewards_def Let_def)
  have c: "Number B = Num False 100 \<and> Number r = Num False (nearestDouble (1 / 100)) \<longrightarrow>
        estimateCurrentRewards Number toString B r (Num False 5) (Num False t)
            (Num False (t + 100 * 1000))
          = toString (Num False 105)"
  proof
    assume h: "Number B = Num False 100 \<and> Number r = Num False (nearestDouble (1 / 100))"
    have "updatedRewards Number B r (Num False 5) (Num False t) (Num False (t + 100 * 1000))
            = Num False 105"
      unfolding updatedRewards_def Let_def sub_times div_100000_1000
      using h by (simp only: mul_rate_5_100 add_100_5)
    then show "estimateCurrentRewards Number toString B r (Num False 5) (Num False t)
            (Num False (t + 100 * 1000)) = toString (Num False 105)"
      by (simp add: estimateCurrentRewards_def)
  qed
  from a b c show ?thesis by blast
qed

text \<open>
  An instance: base \<open>''100''\<close> and rate \<open>''0.01''\<close>, last updated at 1700000000000 and
  estimated 100 seconds later. With no miners the estimate is \<open>''100''\<close>, with five
  miners it prints as \<open>''105''\<close>.
\<close>

theorem estimateCurrentRewards_in_doubles_witness:
  "estimateCurrentRewards exampleNumber printInteger ''100'' ''0.01'' (Num False 0)
       (Num False 1700000000000) (Num False (1700000000000 + 100 * 1000)) = ''100''
   \<and> estimateCurrentRewards exampleNumber printInteger ''100'' ''0.01'' (Num False 5)
       (Num False 1700000000000) (Num False (1700000000000 + 100 * 1000)) = ''105''"
proof -
  have p: "printInteger (Num False 105) = ''105''" by code_simp
  have n1: "exampleNumber ''100'' = Num False 100" by (simp add: exampleNumber_def)
  have n2: "exampleNumber ''0.01'' = Num False (nearestDouble (1 / 100))"
    by (simp add: exampleNumber_def)
  have z: "strictEqualsZero (Num False 0)" by simp
  show ?thesis
    using estimateCurrentRewards_in_doubles[where Number = exampleNumber
        and toString = printInteger and B = "''100''" and r = "''0.01''" and n = "Num False 0"
        and T = "Num False 1700000000000" and now = "Num False (1700000000000 + 100 * 1000)"
        and t = 1700000000000]
      n1 n2 z p
    by simp
qed

text \<open>
  Against claim C7 as stated: with base \<open>''0.1''\<close>, rate \<open>''0.2''\<close> and one miner, one
  second after the last update, the number the method prints is
  \<open>5404319552844596 / 2^54\<close>, which JavaScript prints as 0.30000000000000004. It is not
  the exact value 3/10 of base plus rate times miners times seconds, and it is not the
  double nearest to that value either, which is \<open>5404319552844595 / 2^54\<close>.
\<close>

theorem estimate_differs_from_exact_value:
  "exampleNumber ''0.1'' = Num False (nearestDouble (1 / 10))
   \<and> exampleNumber ''0.2'' = Num False (nearestDouble (1 / 5))
   \<and> updatedRewards exampleNumber ''0.1'' ''0.2'' (Num False 1) (Num False 0) (Num False 1000)
       = Num False (5404319552844596 / 2 ^ 54)
   \<and> (5404319552844596 / 2 ^ 54 :: rat) \<noteq> 1 / 10 + 1 / 5 * 1 * ((1000 - 0) / 1000)
   \<and> nearestDouble (1 / 10 + 1 / 5 * 1 * ((1000 - 0) / 1000)) = 5404319552844595 / 2 ^ 54"
  by code_simp

section \<open>An empty list of staked miners (claim C8)\<close>

text \<open>
  Claim C8, as the code has it. In \<open>useExpeditions\<close> a read that succeeds with the empty
  list is taken as the list of the cycle: a fetch that stays current commits no statuses
  and sets \<open>initialized\<close>, while \<open>lastValidStakedMiners\<close> keeps its value.
  \<open>fetchStakedMiners\<close> of \<open>useMealStatuses\<close> does not take it: it returns the last
  valid list and writes nothing, as it does when the read throws.
\<close>

theorem empty_read_handling:
  assumes "setupError env = None" and "getStakedMiners env = Some []"
    and "opId = globalOperationCounter s" and "otherOpsBeforeLoop env = 0"
  shows "fetchStakedMiners w addr (Some []) h = (msLastValidStakedMiners h, h)
       \<and> fetchStakedMiners w addr None h = (msLastValidStakedMiners h, h)
       \<and> statuses (runFetch env cached opId now s) = []
       \<and> initialized (runFetch env cached opId now s)
       \<and> lastValidStakedMiners (runFetch env cached opId now s) = lastValidStakedMiners s"
proof -
  have rd: "fst (readStakedMiners (getStakedMiners env) cached s) = []"
    using assms(2) by (simp add: readStakedMiners_def)
  have q: "list_all (\<lambda>m. otherOpsDuring env m = 0)
             (fst (readStakedMiners (getStakedMiners env) cached s))"
    unfolding rd by simp
  note r = runFetch_quiet[OF assms(1) assms(3) assms(4) q, of now]
  have f: "fetchStakedMiners w addr (Some []) h = (msLastValidStakedMiners h, h)
       \<and> fetchStakedMiners w addr None h = (msLastValidStakedMiners h, h)"
    by (simp add: fetchStakedMiners_def)
  show ?thesis using r f unfolding rd by simp
qed

text \<open>
  An instance: after the fetch that found miner 7, a fetch reads the empty list. The
  statuses become empty; the last valid list is still \<open>[7]\<close>.
\<close>

theorem empty_read_handling_witness:
  "fetchStakedMiners someWallet ''0xstaking'' (Some [])
       \<lparr> msStakedMiners = [1, 2], msLastValidStakedMiners = [1, 2] \<rparr>
     = ([1, 2], \<lparr> msStakedMiners = [1, 2], msLastValidStakedMiners = [1, 2] \<rparr>)
   \<and> statuses (runFetch (goodEnv\<lparr> getStakedMiners := Some [] \<rparr>) [7] 2 7000 secondInFlight) = []
   \<and> initialized (runFetch (goodEnv\<lparr> getStakedMiners := Some [] \<rparr>) [7] 2 7000 secondInFlight)
   \<and> lastValidStakedMiners
        (runFetch (goodEnv\<lparr> getStakedMiners := Some [] \<rparr>) [7] 2 7000 secondInFlight) = [7]"
proof -
  let ?env = "goodEnv\<lparr> getStakedMiners := Some [] \<rparr>"
  have h1: "setupError ?env = None" and h2: "getStakedMiners ?env = Some []"
    and h4: "otherOpsBeforeLoop ?env = 0"
    by (simp_all add: goodEnv_def)
  have h3: "2 = globalOperationCounter secondInFlight" by (simp add: secondFlight)
  show ?thesis
    using empty_read_handling[OF h1 h2 h3 h4, of someWallet "''0xstaking''"
        "\<lparr> msStakedMiners = [1, 2], msLastValidStakedMiners = [1, 2] \<rparr>" "[7]" 7000]
    by (simp add: secondFlight afterGood)
qed

text \<open>
  Against claim C8 as stated: with the miners \<open>[1, 2]\<close> known, a read by
  \<open>fetchStakedMiners\<close> that succeeds with the empty list changes nothing and returns
  \<open>[1, 2]\<close>: the empty answer does not replace the earlier list.
\<close>

theorem empty_read_not_committed:
  "fetchStakedMiners someWallet ''0xstaking'' (Some [])
       \<lparr> msStakedMiners = [1, 2], msLastValidStakedMiners = [1, 2] \<rparr>
     = ([1, 2], \<lparr> msStakedMiners = [1, 2], msLastValidStakedMiners = [1, 2] \<rparr>)"
  by (simp add: fetchStakedMiners_def someWallet_def noAddress_def)

section \<open>A burst of triggers (claim C9)\<close>

lemma exec_append:
  "exec (es @ fs) s = (let (r1, s1) = exec es s; (r2, s2) = exec fs s1 in (r1 @ r2, s2))"
  by (induction es s rule: exec.induct) (simp_all add: Let_def split: prod.splits)

text \<open>
  While the time-out of the latest trigger is pending and held in the ref, further
  triggers that each come before it is due run no callback and leave one time-out
  pending, that of the last of them.
\<close>

lemma burst_pending:
  "withinDebounce ((f0, t0) # trs) \<Longrightarrow> timeouts s = [(i, t0 + FETCH_DEBOUNCE_MS, f0)] \<Longrightarrow>
   debouncedFetchRef s = Some i \<Longrightarrow>
   \<exists>i' n'. exec (triggers trs) s =
     ([], s\<lparr> timeouts := [(i', snd (last ((f0, t0) # trs)) + FETCH_DEBOUNCE_MS,
                            fst (last ((f0, t0) # trs)))],
            debouncedFetchRef := Some i', nextTimeoutId := n' \<rparr>)"
proof (induction trs arbitrary: s f0 t0 i)
  case Nil
  have "s = s\<lparr> timeouts := [(i, t0 + FETCH_DEBOUNCE_MS, f0)], debouncedFetchRef := Some i,
                nextTimeoutId := nextTimeoutId s \<rparr>"
    using Nil.prems by simp
  then have "exec (triggers []) s =
     ([], s\<lparr> timeouts := [(i, snd (last [(f0, t0)]) + FETCH_DEBOUNCE_MS, fst (last [(f0, t0)]))],
            debouncedFetchRef := Some i, nextTimeoutId := nextTimeoutId s \<rparr>)"
    by (simp add: triggers_def)
  then show ?case by blast
next
  case (Cons x trs)
  obtain f1 t1 where x: "x = (f1, t1)" by (cases x)
  have gap: "t1 - t0 < FETCH_DEBOUNCE_MS" and rest: "withinDebounce ((f1, t1) # trs)"
    using Cons.prems(1) x by simp_all
  have adv: "advance t1 s = ([], s)"
    using Cons.prems(2) gap by (simp add: advance_def)
  let ?s2 = "fetchStatuses f1 t1 s"
  have s2: "?s2 = s\<lparr> timeouts := [(nextTimeoutId s, t1 + FETCH_DEBOUNCE_MS, f1)],
                      debouncedFetchRef := Some (nextTimeoutId s),
                      nextTimeoutId := nextTimeoutId s + 1 \<rparr>"
    using Cons.prems(2,3) by (simp add: fetchStatuses_def clearTimeout_def Let_def)
  have t2: "timeouts ?s2 = [(nextTimeoutId s, t1 + FETCH_DEBOUNCE_MS, f1)]"
    and r2: "debouncedFetchRef ?s2 = Some (nextTimeoutId s)"
    unfolding s2 by simp_all
  from Cons.IH[OF rest t2 r2] obtain i' n' where
    ih: "exec (triggers trs) ?s2 =
      ([], ?s2\<lparr> timeouts := [(i', snd (last ((f1, t1) # trs)) + FETCH_DEBOUNCE_MS,
                              fst (last ((f1, t1) # trs)))],
            debouncedFetchRef := Some i', nextTimeoutId := n' \<rparr>)"
    by blast
  have e1: "exec (triggers (x # trs)) s = exec (triggers trs) ?s2"
    using adv x by (simp add: triggers_def)
  have l: "last ((f0, t0) # x # trs) = last ((f1, t1) # trs)" using x by simp
  have collapse: "\<And>A B C. ?s2\<lparr> timeouts := A, debouncedFetchRef := B, nextTimeoutId := C \<rparr>
                    = s\<lparr> timeouts := A, debouncedFetchRef := B, nextTimeoutId := C \<rparr>"
    by (subst s2) simp
  show ?case unfolding e1 l ih collapse by blast
qed

lemma timerCallback_started_cong:
  "walletRef s' = walletRef s \<Longrightarrow> fetchInProgressRef s' = fetchInProgressRef s \<Longrightarrow>
   lastFetchTimeRef s' = lastFetchTimeRef s \<Longrightarrow>
   globalOperationCounter s' = globalOperationCounter s \<Longrightarrow>
   fst (timerCallback f n s') = fst (timerCallback f n s)"
  by (simp add: timerCallback_def Let_def)

lemma fire_single:
  assumes "due \<le> T"
  shows "fst (advance T (s\<lparr> timeouts := [(i, due, f)], debouncedFetchRef := r,
                           nextTimeoutId := k \<rparr>))
           = [(f, fst (timerCallback f due s))]"
  using assms
  by (simp add: advance_def clearTimeout_def split_beta) (rule timerCallback_started_cong; simp)

text \<open>
  Claim C9, as the code has it. Let one or more triggers arrive, each less than
  \<open>FETCH_DEBOUNCE_MS\<close> after the one before, with no time-out pending at the first and
  no fetch completing in between. Then the debounced callback runs exactly once, when
  the delay of the last trigger has passed and with the \<open>force\<close> argument of that
  trigger. So at most one fetch is started: one when that run passes the checks of the
  wallet, of the fetch in flight and of the cooldown, none otherwise.
\<close>

theorem debounce_coalesces:
  assumes "trs \<noteq> []" and "withinDebounce trs" and "timeouts s = []"
    and "snd (last trs) + FETCH_DEBOUNCE_MS \<le> T"
  shows "fst (exec (triggers trs @ [Advance T]) s) =
           [(fst (last trs),
             fst (timerCallback (fst (last trs)) (snd (last trs) + FETCH_DEBOUNCE_MS) s))]
       \<and> readCycles (fst (exec (triggers trs @ [Advance T]) s)) \<le> 1"
proof -
  obtain f0 t0 rest where trs: "trs = (f0, t0) # rest"
    using assms(1) by (cases trs) auto
  let ?s1 = "fetchStatuses f0 t0 s"
  have adv0: "advance t0 s = ([], s)" using assms(3) by (simp add: advance_def)
  let ?i = "nextTimeoutId s"
  have s1: "?s1 = s\<lparr> timeouts := [(?i, t0 + FETCH_DEBOUNCE_MS, f0)],
                      debouncedFetchRef := Some ?i, nextTimeoutId := ?i + 1 \<rparr>"
    using assms(3)
    by (cases "debouncedFetchRef s") (simp_all add: fetchStatuses_def clearTimeout_def Let_def)
  have t1: "timeouts ?s1 = [(?i, t0 + FETCH_DEBOUNCE_MS, f0)]"
    and r1: "debouncedFetchRef ?s1 = Some ?i"
    unfolding s1 by simp_all
  from burst_pending[OF assms(2)[unfolded trs] t1 r1] obtain i' n' where
    b: "exec (triggers rest) ?s1 =
      ([], ?s1\<lparr> timeouts := [(i', snd (last trs) + FETCH_DEBOUNCE_MS, fst (last trs))],
            debouncedFetchRef := Some i', nextTimeoutId := n' \<rparr>)"
    unfolding trs by blast
  let ?s2 = "s\<lparr> timeouts := [(i', snd (last trs) + FETCH_DEBOUNCE_MS, fst (last trs))],
            debouncedFetchRef := Some i', nextTimeoutId := n' \<rparr>"
  have "exec (triggers trs) s = exec (triggers rest) ?s1"
    unfolding trs using adv0 by (simp add: triggers_def)
  also have "\<dots> = ([], ?s1\<lparr> timeouts := [(i', snd (last trs) + FETCH_DEBOUNCE_MS, fst (last trs))],
            debouncedFetchRef := Some i', nextTimeoutId := n' \<rparr>)"
    by (rule b)
  also have "?s1\<lparr> timeouts := [(i', snd (last trs) + FETCH_DEBOUNCE_MS, fst (last trs))],
            debouncedFetchRef := Some i', nextTimeoutId := n' \<rparr> = ?s2"
    by (subst s1) simp
  finally have burst: "exec (triggers trs) s = ([], ?s2)" .
  have fire: "fst (advance T ?s2) =
           [(fst (last trs),
             fst (timerCallback (fst (last trs)) (snd (last trs) + FETCH_DEBOUNCE_MS) s))]"
    using assms(4) by (rule fire_single)
  have runs: "fst (exec (triggers trs @ [Advance T]) s) =
           [(fst (last trs),
             fst (timerCallback (fst (last trs)) (snd (last trs) + FETCH_DEBOUNCE_MS) s))]"
    using fire unfolding exec_append burst by (simp add: split_beta)
  show ?thesis unfolding runs by (simp add: readCycles_def)
qed

text \<open>
  An instance: three triggers at 2000, 2100 and 2250, the last one forced, after the
  fetch of time 1000 has completed. One run, forced, which starts operation 2.
\<close>

theorem debounce_coalesces_witness:
  "fst (exec (triggers [(True, 2000), (False, 2100), (True, 2250)] @ [Advance 9000]) afterGoodCycle)
     = [(True, Some 2)]
   \<and> readCycles (fst (exec (triggers [(True, 2000), (False, 2100), (True, 2250)] @ [Advance 9000])
        afterGoodCycle)) \<le> 1"
proof -
  have h3: "timeouts afterGoodCycle = []" by (simp add: afterGood)
  have h2: "withinDebounce [(True, 2000), (False, 2100), (True, 2250)]"
    by (simp add: FETCH_DEBOUNCE_MS_def)
  show ?thesis
    using debounce_coalesces[of "[(True, 2000), (False, 2100), (True, 2250)]" afterGoodCycle 9000]
      h2 h3
    by (simp add: afterGood someWallet_def noAddress_def timerCallback_def
        FETCH_DEBOUNCE_MS_def readCycles_def)
qed

text \<open>
  Against claim C9 as stated: a burst of one trigger, not forced, 1000 ms after the
  last fetch started. Its one run falls within the cooldown, and no read cycle is
  executed.
\<close>

theorem burst_without_read:
  "withinDebounce [(False, 2000)]
   \<and> fst (exec (triggers [(False, 2000)] @ [Advance 9000]) afterGoodCycle) = [(False, None)]
   \<and> readCycles (fst (exec (triggers [(False, 2000)] @ [Advance 9000]) afterGoodCycle)) = 0"
  by (simp add: afterGood someWallet_def advance_def fetchStatuses_def
      clearTimeout_def timerCallback_def noAddress_def readCycles_def Let_def triggers_def
      FETCH_DEBOUNCE_MS_def REFETCH_COOLDOWN_MS_def)

text \<open>
  A fetch that completes clears \<open>debouncedFetchRef\<close> without cancelling the time-out a
  trigger has scheduled in the meantime. Here operation 2 was in flight when the trigger
  of time 8000 arrived, and completed before the trigger of time 8200: the two triggers,
  200 ms apart, both get their run. The first run starts operation 3; the second is
  dropped while that fetch is in flight, and starts operation 4 when it has completed.
\<close>

lemma completion_leaves_timeout_pending:
  "withinDebounce [(True, 8000), (True, 8200)]
   \<and> timeouts burstDuringFetch = [(1, 8300, True)]
   \<and> debouncedFetchRef burstDuringFetch = None
   \<and> fst (exec [Trigger True 8200, Advance 9000] burstDuringFetch)
       = [(True, Some 3), (True, None)]
   \<and> fst (exec [Advance 9000]
            (runFetch goodEnv [7] 3 8300
               (snd (exec [Trigger True 8200, Advance 8300] burstDuringFetch))))
       = [(True, Some 4)]"
  by (simp add: burstDuringFetch_def afterGood advance_def fetchStatuses_def
      clearTimeout_def timerCallback_def noAddress_def someWallet_def Let_def
      FETCH_DEBOUNCE_MS_def REFETCH_COOLDOWN_MS_def
      runFetch_def goodEnv_def readStakedMiners_def
      otherOps_def finallyBlock_def commitResults_def fedSeven_def
      processMiner_def toISOStringThrows_def)

section \<open>The miner count of the staking data (claim C10)\<close>

text \<open>
  Claim C10. In every result of \<open>getStakingData\<close>, from the reads or from the \<open>catch\<close>
  block, \<open>stakedMinerCount\<close> is the length of \<open>stakedMiners\<close>: the count comes from the
  list that is returned, not from a read of its own.
\<close>

theorem getStakingData_count_is_length:
  "stakedMinerCount (fst (getStakingData fu a b c w now svc)) =
     int (length (stakedMiners (fst (getStakingData fu a b c w now svc))))"
  by (simp add: getStakingData_def fallbackData_def Let_def split: option.splits)

end
